theory Spec2Isabelle
  imports Complex_Main "HOL-Library.Word"
begin

unbundle bit_operations_syntax

section \<open>The 7-bit codec of util.go\<close>

text \<open>
  A Go \<open>byte\<close> is an 8-bit word: \<open>&\<close>, \<open>|\<close>, \<open><<\<close> and \<open>>>\<close> are \<open>AND\<close>, \<open>OR\<close>,
  \<open>push_bit\<close> (which drops the bits shifted out of the byte) and \<open>drop_bit\<close>. Slices
  are lists. A run-time panic (index or slice bounds out of range) and a receive on a
  channel that nobody ever writes to are results of type \<open>abort\<close>; a function that can
  end that way returns \<open>abort + 'a\<close>.
\<close>

type_synonym byte = "8 word"

datatype abort = IndexOutOfRange | SliceBoundsOutOfRange | BlockedForever

definition from7Bit :: "byte \<Rightarrow> byte \<Rightarrow> byte" where
  "from7Bit b0 b1 = (b0 AND 0x7F) OR push_bit 7 (b1 AND 0x7F)"

definition to7Bit :: "byte \<Rightarrow> byte list" where
  "to7Bit i = [i AND 0x7f, drop_bit 7 i AND 0x7f]"

text \<open>
  \<open>From7BitMulti\<close>: the loop variable \<open>i\<close> and \<open>shift\<close> are Go \<open>uint\<close>s that stay far
  below the word size, so they are naturals; \<open>shift\<close> never exceeds 6, so \<open>7 - shift\<close>
  does not wrap. The loop test compares as \<open>int\<close>, since \<open>len(data)-3\<close> is negative for
  short inputs. The body may bump \<open>i\<close> before it indexes \<open>data[j]\<close> and \<open>data[j+1]\<close>
  with \<open>j = i + 2\<close>; Go panics when either index is outside the slice.
\<close>

function From7BitMulti_loop :: "byte list \<Rightarrow> nat \<Rightarrow> nat \<Rightarrow> byte list \<Rightarrow> abort + byte list" where
  "From7BitMulti_loop data i shift res =
     (if int i < int (length data) - 3 then
        (let i1 = (if i > 0 \<and> i mod 7 = 0 then i + 1 else i);
             j = i1 + 2
         in if length data \<le> j + 1 then Inl IndexOutOfRange
            else
              (let d = drop_bit shift (data ! j) OR push_bit (7 - shift) (data ! (j + 1));
                   shift1 = (if shift + 1 > 6 then 0 else shift + 1)
               in From7BitMulti_loop data (i1 + 1) shift1 (res @ [d])))
      else Inr res)"
  by pat_completeness auto
termination
  by (relation "measure (\<lambda>(data, i, shift, res). length data - i)") auto

declare From7BitMulti_loop.simps [simp del]

definition From7BitMulti :: "byte list \<Rightarrow> abort + byte list" where
  "From7BitMulti data = From7BitMulti_loop data 0 0 []"

text \<open>
  \<open>To7BitMulti\<close>: the loop over \<open>data\<close> threads \<open>shift\<close>, \<open>prev\<close> and \<open>res\<close>; the
  function returns them, and the caller flushes \<open>prev\<close> when \<open>shift > 0\<close>.
\<close>

fun To7BitMulti_loop :: "byte list \<Rightarrow> nat \<Rightarrow> byte \<Rightarrow> byte list \<Rightarrow> nat \<times> byte \<times> byte list" where
  "To7BitMulti_loop [] shift prev res = (shift, prev, res)"
| "To7BitMulti_loop (x # xs) shift prev res =
     (if shift = 0 then
        To7BitMulti_loop xs 1 (drop_bit 7 x) (res @ [x AND 0x7f])
      else
        (let res1 = res @ [(push_bit shift x AND 0x7f) OR prev]
         in if shift = 6 then To7BitMulti_loop xs 0 prev (res1 @ [drop_bit 1 x])
            else To7BitMulti_loop xs (shift + 1) (drop_bit (8 - (shift + 1)) x) res1))"

definition To7BitMulti :: "byte list \<Rightarrow> byte list" where
  "To7BitMulti data =
     (case To7BitMulti_loop data 0 0 [] of
        (shift, prev, res) \<Rightarrow> if shift > 0 then res @ [prev] else res)"

section \<open>Requests, CRC and the bus session of onewire.go\<close>

text \<open>
  The request struct. \<open>int32\<close> fields are 32-bit words; Go's \<open>>>\<close> on a signed integer
  is the arithmetic shift \<open>signed_drop_bit\<close>, and \<open>byte(e)\<close> keeps the low 8 bits
  (\<open>ucast\<close>).

  The command-flag constants (\<open>OW_RESET\<close>, \<open>OW_SELECT\<close>, ...), the SysEx command
  \<open>SysExOneWire\<close> and the subcommand constant \<open>OneWireConfig\<close> are declared in a file
  of the package that is not part of the sources at hand. They are a parameter \<open>K\<close> of
  every function that reads them; the subcommand constant is the field
  \<open>OneWireConfig_const\<close>, since the method of the same name is modelled below.
\<close>

record OneWireRequest =
  Command :: byte
  Address :: "byte list"
  ReadCount :: "32 word"
  CorrelationId :: "32 word"
  DelayMs :: "32 word"
  Data :: "byte list"

record OneWireConsts =
  SysExOneWire :: byte
  OneWireConfig_const :: byte
  OW_RESET :: byte
  OW_SKIP :: byte
  OW_SELECT :: byte
  OW_READ :: byte
  OW_DELAY :: byte
  OW_WRITE :: byte

definition Encode :: "OneWireConsts \<Rightarrow> OneWireRequest \<Rightarrow> byte list" where
  "Encode K r =
     (let d0 = [];
          d1 = (if Command r AND OW_SELECT K > 0 then d0 @ Address r else d0);
          d2 = (if Command r AND OW_READ K > 0 then
                  d1 @ [ucast (ReadCount r AND 0xff)]
                     @ [ucast (signed_drop_bit 8 (ReadCount r) AND 0xff)]
                     @ [ucast (CorrelationId r AND 0xff)]
                     @ [ucast (signed_drop_bit 8 (CorrelationId r) AND 0xff)]
                else d1);
          d3 = (if Command r AND OW_DELAY K > 0 then
                  d2 @ [ucast (DelayMs r AND 0xff)]
                     @ [ucast (signed_drop_bit 8 (DelayMs r) AND 0xff)]
                     @ [ucast (signed_drop_bit 16 (DelayMs r) AND 0xff)]
                     @ [ucast (signed_drop_bit 24 (DelayMs r) AND 0xff)]
                else d2);
          d4 = (if Command r AND OW_WRITE K > 0 then d3 @ Data r else d3)
      in To7BitMulti d4)"

fun crc8_bits :: "nat \<Rightarrow> byte \<Rightarrow> byte \<Rightarrow> byte" where
  "crc8_bits 0 crc b = crc"
| "crc8_bits (Suc i) crc b =
     (let mix = (crc XOR b) AND 0x1;
          crc1 = drop_bit 1 crc;
          crc2 = (if mix > 0 then crc1 XOR 0x8C else crc1)
      in crc8_bits i crc2 (drop_bit 1 b))"

definition OneWireCrc8 :: "byte list \<Rightarrow> byte" where
  "OneWireCrc8 data = fold (\<lambda>b crc. crc8_bits 8 crc b) data 0"

text \<open>
  A Go \<open>error\<close> return value is \<open>go_error option\<close>, \<open>None\<close> for \<open>nil\<close>. The CRC error
  carries what the message of \<open>ReadScratchPad\<close> prints: received CRC, calculated CRC
  and the scratch bytes.
\<close>

datatype go_error =
    TransportError
  | CrcMismatch byte byte "byte list"
  | ResolutionRange

text \<open>
  Modelled from the spec: the type \<open>FirmataClient\<close> belongs to the transport, outside
  the sources at hand. The spec gives the transport two operations: send an extension
  command with a byte payload, which returns an error or none, and deliver an inbound
  payload. The client state is therefore the log \<open>sent\<close> of every \<open>sendSysEx\<close> call
  (command byte followed by its data bytes, oldest first), the error \<open>sendErr\<close> that
  the transport answers a send with, and \<open>owChan\<close>: the buffers that will be handed
  over on the channel \<open>c.owChan\<close>, in order.
\<close>

record FirmataClient =
  sent :: "byte list list"
  sendErr :: "go_error option"
  owChan :: "byte list list"

text \<open>
  Modelled from the spec: the method \<open>sendSysEx\<close> is the transport's send operation,
  outside the sources at hand. It takes the command byte and the data bytes, records
  the call and returns the transport's error or none.
\<close>

definition sendSysEx :: "FirmataClient \<Rightarrow> byte \<Rightarrow> byte list \<Rightarrow> go_error option \<times> FirmataClient" where
  "sendSysEx c cmd data = (sendErr c, c\<lparr>sent := sent c @ [cmd # data]\<rparr>)"

text \<open>
  The receive \<open><-c.owChan\<close> takes the first pending delivery; with none left the
  caller blocks forever.
\<close>

definition recv_owChan :: "FirmataClient \<Rightarrow> (abort + byte list) \<times> FirmataClient" where
  "recv_owChan c =
     (case owChan c of
        [] \<Rightarrow> (Inl BlockedForever, c)
      | m # ms \<Rightarrow> (Inr m, c\<lparr>owChan := ms\<rparr>))"

text \<open>
  \<open>OneWireConfig\<close> replaces \<open>c.owChan\<close> by a fresh channel; the buffers of \<open>owChan\<close>
  are the future deliveries, which go to the channel current at that time, so the field
  is left as it is.
\<close>

definition OneWireConfig :: "OneWireConsts \<Rightarrow> FirmataClient \<Rightarrow> byte \<Rightarrow> byte \<Rightarrow> go_error option \<times> FirmataClient" where
  "OneWireConfig K c csPin owPowerMode =
     (let csPinBytes = to7Bit csPin;
          powerModeBytes = to7Bit owPowerMode
      in sendSysEx c (SysExOneWire K)
           [OneWireConfig_const K, csPinBytes ! 0, powerModeBytes ! 0])"

fun OneWireSearch_loop :: "nat \<Rightarrow> byte list \<Rightarrow> byte list \<Rightarrow> byte list list \<Rightarrow> byte list list" where
  "OneWireSearch_loop i [] t addresses = addresses"
| "OneWireSearch_loop i (d # ds) t addresses =
     (let t1 = t @ [d]
      in if i > 0 \<and> i mod 8 = 7 then OneWireSearch_loop (i + 1) ds [] (addresses @ [t1])
         else OneWireSearch_loop (i + 1) ds t1 addresses)"

definition OneWireSearch ::
  "OneWireConsts \<Rightarrow> FirmataClient \<Rightarrow> byte \<Rightarrow> byte \<Rightarrow>
     (abort + byte list list \<times> go_error option) \<times> FirmataClient" where
  "OneWireSearch K c csPin owSearchMode =
     (case sendSysEx c (SysExOneWire K) [owSearchMode, csPin] of
        (err, c1) \<Rightarrow>
          (case recv_owChan c1 of
             (Inl a, c2) \<Rightarrow> (Inl a, c2)
           | (Inr dataOut, c2) \<Rightarrow> (Inr (OneWireSearch_loop 0 dataOut [] [], err), c2)))"

definition OneWireCommand ::
  "OneWireConsts \<Rightarrow> FirmataClient \<Rightarrow> byte \<Rightarrow> OneWireRequest \<Rightarrow>
     (abort + byte list \<times> go_error option) \<times> FirmataClient" where
  "OneWireCommand K c csPin request =
     (let d = [Command request] @ [csPin] @ Encode K request
      in case sendSysEx c (SysExOneWire K) d of
           (err, c1) \<Rightarrow>
             if err \<noteq> None then (Inr ([], err), c1)
             else if Command request AND 0x8 > 0 then
               (case recv_owChan c1 of
                  (Inl a, c2) \<Rightarrow> (Inl a, c2)
                | (Inr dataOut, c2) \<Rightarrow> (Inr (dataOut, None), c2))
             else (Inr ([], None), c1))"

definition parseOWResponse :: "FirmataClient \<Rightarrow> byte list \<Rightarrow> abort + FirmataClient" where
  "parseOWResponse c data7bit =
     (case From7BitMulti data7bit of
        Inl a \<Rightarrow> Inl a
      | Inr data \<Rightarrow> Inr (c\<lparr>owChan := owChan c @ [data]\<rparr>))"

text \<open>
  The device struct. Its \<open>Address\<close> field is \<open>DevAddress\<close> here (the request record
  owns the name \<open>Address\<close>). \<open>Client\<close> is a pointer in Go; the methods below return the
  device with the client state they leave behind, also when they abort.

  \<open>Temperature\<close> is a \<open>float32\<close> computed as \<open>float32(raw)\<close> of a \<open>uint16\<close> followed
  by a division by 16. Every \<open>uint16\<close> fits the 24-bit significand and a division by a
  power of two only changes the exponent, so both steps are exact and the field is the
  rational number \<open>raw / 16\<close>.
\<close>

record Ds18x20 =
  Client :: FirmataClient
  Pin :: byte
  DevAddress :: "byte list"
  scratch :: "byte list"
  Temperature :: rat
  RegisterTh :: byte
  RegisterTl :: byte
  ConfigRegister :: byte

definition GetResolution :: "Ds18x20 \<Rightarrow> byte" where
  "GetResolution d = (let res = drop_bit 5 (ConfigRegister d) AND 0x3 in res + 9)"

text \<open>
  \<open>parseTemperature\<close> indexes \<open>d.scratch[0]\<close>, \<open>d.scratch[1]\<close>, \<open>d.Address[0]\<close> and, for
  family 0x10, \<open>d.scratch[6]\<close>, in this order, each before the assignment to
  \<open>d.Temperature\<close>: a panic leaves the device as it was. The \<open>uint16\<close> arithmetic of
  the legacy branch wraps.
\<close>

definition parseTemperature :: "Ds18x20 \<Rightarrow> abort + Ds18x20" where
  "parseTemperature d =
     (if length (scratch d) < 2 then Inl IndexOutOfRange
      else
        (let raw = (ucast (scratch d ! 0) :: 16 word) OR push_bit 8 (ucast (scratch d ! 1))
         in if DevAddress d = [] then Inl IndexOutOfRange
            else if DevAddress d ! 0 = 0x10 then
              (let raw1 = push_bit 3 raw
               in if length (scratch d) < 7 then Inl IndexOutOfRange
                  else Inr (d\<lparr>Temperature :=
                         of_nat (unat ((raw1 AND 0xFFF0) + 12 - ucast (scratch d ! 6))) / 16\<rparr>))
            else
              (let res = GetResolution d;
                   raw1 = (if res = 9 then raw AND 0xfff8
                           else if res = 10 then raw AND 0xfffc
                           else if res = 11 then raw AND 0xfffe
                           else raw)
               in Inr (d\<lparr>Temperature := of_nat (unat raw1) / 16\<rparr>))))"

definition ConvertT :: "OneWireConsts \<Rightarrow> Ds18x20 \<Rightarrow> bool \<Rightarrow> (abort + go_error option) \<times> Ds18x20" where
  "ConvertT K d all =
     (let req0 = \<lparr>Command = 0, Address = [], ReadCount = 0, CorrelationId = 0, DelayMs = 0,
                  Data = [0x44]\<rparr>;
          req = (if all then req0\<lparr>Command := OW_RESET K OR OW_SELECT K OR OW_WRITE K,
                                  Address := DevAddress d\<rparr>
                 else req0\<lparr>Command := OW_RESET K OR OW_SKIP K OR OW_WRITE K\<rparr>)
      in case OneWireCommand K (Client d) (Pin d) req of
           (Inl a, c1) \<Rightarrow> (Inl a, d\<lparr>Client := c1\<rparr>)
         | (Inr (out, err), c1) \<Rightarrow> (Inr err, d\<lparr>Client := c1\<rparr>))"

text \<open>
  \<open>ReadScratchPad\<close>: \<open>scratch[2:]\<close> panics on a reply shorter than 2 bytes, the CRC
  byte \<open>d.scratch[len(d.scratch)-1]\<close> on an empty scratch, and \<open>d.scratch[4]\<close> after
  \<open>parseTemperature\<close> on a scratch of fewer than 5 bytes.
\<close>

definition ReadScratchPad :: "OneWireConsts \<Rightarrow> Ds18x20 \<Rightarrow> (abort + go_error option) \<times> Ds18x20" where
  "ReadScratchPad K d =
     (let req = \<lparr>Command = OW_RESET K OR OW_SELECT K OR OW_WRITE K OR OW_READ K,
                 Address = DevAddress d, ReadCount = 9, CorrelationId = 0x1234, DelayMs = 0,
                 Data = [0xbe]\<rparr>
      in case OneWireCommand K (Client d) (Pin d) req of
           (Inl a, c1) \<Rightarrow> (Inl a, d\<lparr>Client := c1\<rparr>)
         | (Inr (reply, err), c1) \<Rightarrow>
             (let d1 = d\<lparr>Client := c1\<rparr>
              in if err \<noteq> None then (Inr err, d1)
                 else if length reply < 2 then (Inl SliceBoundsOutOfRange, d1)
                 else
                   (let d2 = d1\<lparr>scratch := drop 2 reply\<rparr>
                    in if scratch d2 = [] then (Inl IndexOutOfRange, d2)
                       else
                         (let crc = scratch d2 ! (length (scratch d2) - 1);
                              c = OneWireCrc8 (take (length (scratch d2) - 1) (scratch d2))
                          in if c \<noteq> crc then (Inr (Some (CrcMismatch crc c (scratch d2))), d2)
                             else
                               (case parseTemperature d2 of
                                  Inl a \<Rightarrow> (Inl a, d2)
                                | Inr d3 \<Rightarrow>
                                    if length (scratch d3) \<le> 4 then (Inl IndexOutOfRange, d3)
                                    else
                                      (Inr None,
                                       d3\<lparr>ConfigRegister := scratch d3 ! 4,
                                          RegisterTh := scratch d3 ! 2,
                                          RegisterTl := scratch d3 ! 3\<rparr>))))))"

definition Resolution :: "OneWireConsts \<Rightarrow> Ds18x20 \<Rightarrow> byte \<Rightarrow> (abort + go_error option) \<times> Ds18x20" where
  "Resolution K d r =
     (if r < 9 \<or> r > 12 then (Inr (Some ResolutionRange), d)
      else
        (let req = \<lparr>Command = OW_RESET K OR OW_SELECT K OR OW_WRITE K,
                    Address = DevAddress d, ReadCount = 0, CorrelationId = 0x1234, DelayMs = 0,
                    Data = [0x4e, 0x0, 0x0]\<rparr>;
             r1 = push_bit 6 (r - 9);
             req1 = req\<lparr>Data := Data req @ [r1]\<rparr>
         in case OneWireCommand K (Client d) (Pin d) req1 of
              (Inl a, c1) \<Rightarrow> (Inl a, d\<lparr>Client := c1\<rparr>)
            | (Inr (out, err), c1) \<Rightarrow> (Inr err, d\<lparr>Client := c1\<rparr>)))"

section \<open>Reference definitions\<close>

text \<open>
  The definitions of this section are not code of the package. They say, in the words of
  the specification, what a result should be, or they are the concrete values at which
  the theorems below are evaluated.
\<close>

text \<open>
  The little-endian encoding of a number in \<open>n\<close> bytes, least significant byte first.
\<close>

fun le_bytes :: "nat \<Rightarrow> nat \<Rightarrow> byte list" where
  "le_bytes 0 v = []"
| "le_bytes (Suc n) v = of_nat (v mod 256) # le_bytes n (v div 256)"

text \<open>
  The unpacked body of a request as the specification words it: the address if SELECT,
  the little-endian read count and correlation id (two bytes each) if READ, the
  little-endian 32-bit delay if DELAY, the write payload if WRITE; absent fields
  contribute nothing. The \<open>int32\<close> fields are read as their two's-complement bit
  patterns.
\<close>

definition request_body :: "OneWireConsts \<Rightarrow> OneWireRequest \<Rightarrow> byte list" where
  "request_body K r =
     (if Command r AND OW_SELECT K \<noteq> 0 then Address r else []) @
     (if Command r AND OW_READ K \<noteq> 0
      then le_bytes 2 (unat (ReadCount r)) @ le_bytes 2 (unat (CorrelationId r)) else []) @
     (if Command r AND OW_DELAY K \<noteq> 0 then le_bytes 4 (unat (DelayMs r)) else []) @
     (if Command r AND OW_WRITE K \<noteq> 0 then Data r else [])"

text \<open>
  The partition of a search reply: consecutive groups of 8 bytes in arrival order, a
  trailing group of fewer than 8 bytes dropped.
\<close>

definition address_groups :: "byte list \<Rightarrow> byte list list" where
  "address_groups buf = map (\<lambda>k. take 8 (drop (8 * k) buf)) [0..<length buf div 8]"


text \<open>
  Concrete values: the constants as the OneWire feature of the Firmata protocol numbers
  them, a client with a working transport and given pending deliveries, and a DS18B20
  (family code 0x28) that has not been read yet, so that every field has Go's zero
  value.
\<close>

definition example_consts :: OneWireConsts where
  "example_consts =
     \<lparr>SysExOneWire = 0x73, OneWireConfig_const = 0x41, OW_RESET = 0x01, OW_SKIP = 0x02,
      OW_SELECT = 0x04, OW_READ = 0x08, OW_DELAY = 0x10, OW_WRITE = 0x20\<rparr>"

definition example_client :: "byte list list \<Rightarrow> FirmataClient" where
  "example_client replies = \<lparr>sent = [], sendErr = None, owChan = replies\<rparr>"

definition example_device :: "byte list list \<Rightarrow> Ds18x20" where
  "example_device replies =
     \<lparr>Client = example_client replies, Pin = 2,
      DevAddress = [0x28, 0x01, 0x02, 0x03, 0x04, 0x05, 0x06, 0x07],
      scratch = [], Temperature = 0, RegisterTh = 0, RegisterTl = 0, ConfigRegister = 0\<rparr>"

section \<open>An ideal unpacker and the read schedule of \<open>From7BitMulti\<close>\<close>

text \<open>
  Devices for the proofs about the codec. \<open>dec\<close> is the byte that \<open>From7BitMulti\<close>
  assembles from two packed bytes. \<open>pack_from\<close> is what the loop of \<open>To7BitMulti\<close>
  appends from a given state on, the final flush included. \<open>unpack\<close> walks a packed
  list in the way that inverts the packer: seven bytes out of every eight. The two
  schedules list the (shift, index) pairs that \<open>From7BitMulti\<close> and \<open>unpack\<close> read; they
  depend on the length of the input only. \<open>read_schedule\<close> repeats the control flow of
  \<open>From7BitMulti_loop\<close>, panic included.
\<close>

definition dec :: "nat \<Rightarrow> byte \<Rightarrow> byte \<Rightarrow> byte" where
  "dec s a b = drop_bit s a OR push_bit (7 - s) b"

fun pack_from :: "byte list \<Rightarrow> nat \<Rightarrow> byte \<Rightarrow> byte list" where
  "pack_from [] shift prev = (if shift > 0 then [prev] else [])"
| "pack_from (x # xs) shift prev =
     (if shift = 0 then (x AND 0x7f) # pack_from xs 1 (drop_bit 7 x)
      else if shift = 6 then ((push_bit shift x AND 0x7f) OR prev) # drop_bit 1 x # pack_from xs 0 prev
      else ((push_bit shift x AND 0x7f) OR prev) # pack_from xs (shift + 1) (drop_bit (8 - (shift + 1)) x))"

fun unpack :: "nat \<Rightarrow> byte list \<Rightarrow> byte list" where
  "unpack s (a # b # rest) =
     dec s a b # (if s = 6 then unpack 0 rest else unpack (s + 1) (b # rest))"
| "unpack s [a] = []"
| "unpack s [] = []"

definition apply_sched :: "byte list \<Rightarrow> (nat \<times> nat) list \<Rightarrow> byte list" where
  "apply_sched data sch = map (\<lambda>(s, j). dec s (data ! j) (data ! (j + 1))) sch"

function read_schedule :: "nat \<Rightarrow> nat \<Rightarrow> nat \<Rightarrow> (nat \<times> nat) list \<Rightarrow> abort + (nat \<times> nat) list" where
  "read_schedule len i shift sch =
     (if int i < int len - 3 then
        (let i1 = (if i > 0 \<and> i mod 7 = 0 then i + 1 else i);
             j = i1 + 2
         in if len \<le> j + 1 then Inl IndexOutOfRange
            else read_schedule len (i1 + 1) (if shift + 1 > 6 then 0 else shift + 1)
                   (sch @ [(shift, j)]))
      else Inr sch)"
  by pat_completeness auto
termination
  by (relation "measure (\<lambda>(len, i, shift, sch). len - i)") auto

declare read_schedule.simps [simp del]

function unpack_schedule :: "nat \<Rightarrow> nat \<Rightarrow> nat \<Rightarrow> (nat \<times> nat) list" where
  "unpack_schedule s k len =
     (if k + 1 < len then
        (s, k) # (if s = 6 then unpack_schedule 0 (k + 2) len else unpack_schedule (s + 1) (k + 1) len)
      else [])"
  by pat_completeness auto
termination
  by (relation "measure (\<lambda>(s, k, len). len - k)") auto

declare unpack_schedule.simps [simp del]

section \<open>Properties of the codec\<close>

subsection \<open>Short inputs of the unpacker\<close>

text \<open>
  Claim C10. For every packed input buffer of at most 3 bytes \<open>From7BitMulti\<close> returns
  the empty buffer: the loop test \<open>int(i) < len(data)-3\<close> fails at once. In particular
  the packed form of a single byte, which has 2 bytes, unpacks to nothing.
\<close>

theorem From7BitMulti_short:
  "(length data \<le> 3 \<longrightarrow> From7BitMulti data = Inr []) \<and>
   length (To7BitMulti [b]) = 2 \<and>
   From7BitMulti (To7BitMulti [b]) = Inr []"
  by (simp add: From7BitMulti_def To7BitMulti_def From7BitMulti_loop.simps [of _ 0 0 "[]"])

theorem From7BitMulti_short_witness:
  "length [0x12, 0x34, 0x56 :: byte] \<le> 3 \<and> From7BitMulti [0x12, 0x34, 0x56] = Inr []"
  using From7BitMulti_short [of "[0x12, 0x34, 0x56]" 0] by simp

subsection \<open>Every packed byte is 7-bit safe\<close>

lemma msb_and_7f: "\<not> bit ((x::byte) AND 0x7f) 7"
  by (simp add: bit_simps)

lemma msb_drop_bit:
  assumes "0 < k"
  shows "\<not> bit (drop_bit k (x::byte)) 7"
proof
  assume "bit (drop_bit k x) 7"
  then have "bit x (k + 7)"
    by (simp add: bit_drop_bit_eq)
  then have "k + 7 < LENGTH(8)"
    by (rule bit_imp_le_length)
  with assms show False
    by simp
qed

text \<open>
  The loop invariant: \<open>shift\<close> stays within 0..6, and neither the carry \<open>prev\<close> nor any
  byte appended to \<open>res\<close> has bit 7 set.
\<close>

lemma To7BitMulti_loop_msb:
  "shift \<le> 6 \<Longrightarrow> \<not> bit prev 7 \<Longrightarrow> \<forall>b\<in>set res. \<not> bit b 7 \<Longrightarrow>
   To7BitMulti_loop xs shift prev res = (s, p, r) \<Longrightarrow>
   \<not> bit p 7 \<and> (\<forall>b\<in>set r. \<not> bit b 7)"
proof (induction xs arbitrary: shift prev res)
  case Nil
  then show ?case by simp
next
  case (Cons x xs)
  let ?w = "(push_bit shift x AND 0x7f) OR prev"
  have w: "\<not> bit ?w 7"
    using Cons.prems(2) by (simp add: bit_or_iff msb_and_7f)
  show ?case
  proof (cases "shift = 0")
    case True
    with Cons.prems have run:
      "To7BitMulti_loop xs 1 (drop_bit 7 x) (res @ [x AND 0x7f]) = (s, p, r)"
      by simp
    show ?thesis
      by (rule Cons.IH [OF _ _ _ run])
        (use Cons.prems in \<open>simp_all add: msb_and_7f msb_drop_bit\<close>)
  next
    case False
    show ?thesis
    proof (cases "shift = 6")
      case True
      with Cons.prems have run:
        "To7BitMulti_loop xs 0 prev (res @ [?w, drop_bit 1 x]) = (s, p, r)"
        by simp
      show ?thesis
        by (rule Cons.IH [OF _ _ _ run])
          (use Cons.prems w in \<open>simp_all add: msb_drop_bit\<close>)
    next
      case nsix: False
      with \<open>shift \<noteq> 0\<close> Cons.prems have run:
        "To7BitMulti_loop xs (shift + 1) (drop_bit (8 - (shift + 1)) x) (res @ [?w]) = (s, p, r)"
        by simp
      show ?thesis
        by (rule Cons.IH [OF _ _ _ run])
          (use Cons.prems w nsix in \<open>simp_all add: msb_drop_bit\<close>)
    qed
  qed
qed

text \<open>
  Claim C6. Packed-value range: for every input buffer, every byte of the output of
  \<open>To7BitMulti\<close>, the flushed carry byte included, has its most significant bit (bit 7)
  equal to zero.
\<close>

theorem To7BitMulti_high_bit_clear: "\<forall>b \<in> set (To7BitMulti data). \<not> bit b 7"
proof -
  obtain s p r where run: "To7BitMulti_loop data 0 0 [] = (s, p, r)"
    by (cases "To7BitMulti_loop data 0 0 []") auto
  have "\<not> bit p 7 \<and> (\<forall>b\<in>set r. \<not> bit b 7)"
    by (rule To7BitMulti_loop_msb [OF _ _ _ run]) simp_all
  then show ?thesis
    by (simp add: To7BitMulti_def run)
qed

theorem To7BitMulti_high_bit_clear_witness:
  "To7BitMulti [0xFF, 0x80] = [0x7f, 1, 2] \<and> \<not> bit (last (To7BitMulti [0xFF, 0x80])) 7"
  using To7BitMulti_high_bit_clear [of "[0xFF, 0x80]"] by (simp add: To7BitMulti_def)

subsection \<open>Packing, then unpacking\<close>

text \<open>
  Two packed bytes written for the input byte \<open>x\<close> at shift \<open>s\<close> carry its low
  \<open>7 - s\<close> bits and its high \<open>s + 1\<close> bits; \<open>dec\<close> puts them together again. The
  carry \<open>p\<close> from the byte before has no bit at or above \<open>s\<close>.
\<close>

lemma m7f: "(0x7f :: byte) = mask 7"
  by (simp add: mask_eq_exp_minus_1)

lemma low_part:
  assumes s: "s \<le> 6" and p: "drop_bit s p = 0"
  shows "drop_bit s ((push_bit s x AND 0x7f) OR p) = take_bit (7 - s) (x::byte)"
  unfolding m7f
proof (rule bit_word_eqI)
  fix n
  assume n: "n < LENGTH(8)"
  have "bit (drop_bit s p) n = False"
    by (simp add: p)
  then have "\<not> bit p (s + n)"
    by (simp add: bit_drop_bit_eq)
  then show "bit (drop_bit s ((push_bit s x AND mask 7) OR p)) n = bit (take_bit (7 - s) x) n"
    using s n
    by (auto simp add: bit_drop_bit_eq bit_or_iff bit_and_iff bit_push_bit_iff bit_mask_iff
        bit_take_bit_iff add.commute)
qed

lemma high_part:
  "s \<le> 6 \<Longrightarrow> push_bit (7 - s) ((push_bit (Suc s) y AND 0x7f) OR drop_bit (7 - s) x) =
      push_bit (7 - s) (drop_bit (7 - s) (x::byte))"
  unfolding m7f
proof (rule bit_word_eqI)
  fix n
  assume s: "s \<le> 6" and n: "n < LENGTH(8)"
  show "bit (push_bit (7 - s) ((push_bit (Suc s) y AND mask 7) OR drop_bit (7 - s) x)) n =
        bit (push_bit (7 - s) (drop_bit (7 - s) x)) n"
    using s n
    by (auto simp add: bit_drop_bit_eq bit_or_iff bit_and_iff bit_push_bit_iff bit_mask_iff simp del: push_bit_Suc)
qed

lemma rejoin: "take_bit k x OR push_bit k (drop_bit k x) = (x::byte)"
proof (rule bit_word_eqI)
  fix n
  assume n: "n < LENGTH(8)"
  show "bit (take_bit k x OR push_bit k (drop_bit k x)) n = bit x n"
  proof (cases "n < k")
    case True
    then show ?thesis
      by (simp add: bit_or_iff bit_push_bit_iff bit_take_bit_iff)
  next
    case False
    then show ?thesis
      using n by (simp add: bit_or_iff bit_push_bit_iff bit_take_bit_iff bit_drop_bit_eq)
  qed
qed

lemma dec_enc:
  "s \<le> 6 \<Longrightarrow> drop_bit s p = 0 \<Longrightarrow>
   dec s ((push_bit s x AND 0x7f) OR p) ((push_bit (Suc s) y AND 0x7f) OR drop_bit (7 - s) x) = x"
  unfolding dec_def by (simp only: low_part high_part rejoin)

lemma dec_first: "dec 0 (x AND 0x7f) ((push_bit (Suc 0) y AND 0x7f) OR drop_bit 7 x) = x"
  using dec_enc [of 0 0 x y] by (simp del: push_bit_Suc)

lemma dec_seventh:
  "drop_bit 6 p = 0 \<Longrightarrow> dec 6 ((push_bit 6 x AND 0x7f) OR p) (drop_bit (Suc 0) x) = x"
  using dec_enc [of 6 p x 0] by simp

lemma pack_from_head:
  "0 < s \<Longrightarrow> \<exists>y rest. pack_from xs s p = ((push_bit s y AND 0x7f) OR p) # rest"
proof (cases xs)
  case Nil
  assume "0 < s"
  then have "pack_from xs s p = ((push_bit s 0 AND 0x7f) OR p) # []"
    using Nil by simp
  then show ?thesis by blast
next
  case (Cons x xs')
  assume "0 < s"
  then show ?thesis
    using Cons by (cases "s = 6") auto
qed

lemma pack_from_shift0: "pack_from xs 0 p = pack_from xs 0 0"
  by (cases xs) simp_all

lemma unpack_pack_from:
  "s \<le> 6 \<Longrightarrow> drop_bit s p = 0 \<Longrightarrow> unpack s (pack_from xs s p) = xs"
proof (induction xs arbitrary: s p)
  case Nil
  then show ?case by simp
next
  case (Cons x xs)
  show ?case
  proof (cases "s = 0")
    case True
    obtain y rest where h: "pack_from xs (Suc 0) (drop_bit 7 x) = ((push_bit (Suc 0) y AND 0x7f) OR drop_bit 7 x) # rest"
      using pack_from_head [of "Suc 0" xs "drop_bit 7 x"] by auto
    have ih: "unpack (Suc 0) (pack_from xs (Suc 0) (drop_bit 7 x)) = xs"
      by (rule Cons.IH) (simp_all add: drop_bit_drop_bit)
    show ?thesis
      using True ih unfolding h
      by (simp add: h dec_first del: push_bit_Suc)
  next
    case nz: False
    show ?thesis
    proof (cases "s = 6")
      case True
      have ih: "unpack 0 (pack_from xs 0 0) = xs"
        by (rule Cons.IH) simp_all
      show ?thesis
        using True Cons.prems ih by (simp add: dec_seventh pack_from_shift0 [of xs p])
    next
      case False
      with nz Cons.prems have le: "Suc s \<le> 6" by simp
      obtain y rest where h: "pack_from xs (Suc s) (drop_bit (7 - s) x) =
          ((push_bit (Suc s) y AND 0x7f) OR drop_bit (7 - s) x) # rest"
        using pack_from_head [of "Suc s" xs "drop_bit (7 - s) x"] by auto
      have z: "drop_bit (Suc s) (drop_bit (7 - s) x) = 0"
        using le by (simp add: drop_bit_drop_bit del: drop_bit_Suc)
      have ih: "unpack (Suc s) (pack_from xs (Suc s) (drop_bit (7 - s) x)) = xs"
        by (rule Cons.IH [OF le z])
      have "unpack s (pack_from (x # xs) s p) =
            unpack s (((push_bit s x AND 0x7f) OR p) # pack_from xs (Suc s) (drop_bit (7 - s) x))"
        using nz False by simp
      also have "\<dots> = x # unpack (Suc s) (pack_from xs (Suc s) (drop_bit (7 - s) x))"
        unfolding h using False Cons.prems by (simp add: dec_enc del: push_bit_Suc)
      finally show ?thesis
        by (simp add: ih)
    qed
  qed
qed

lemma To7BitMulti_loop_pack:
  "(case To7BitMulti_loop xs s p res of
      (s', p', r) \<Rightarrow> if s' > 0 then r @ [p'] else r) = res @ pack_from xs s p"
  by (induction xs arbitrary: s p res) simp_all

lemma To7BitMulti_pack: "To7BitMulti B = pack_from B 0 0"
  using To7BitMulti_loop_pack [of B 0 0 "[]"] by (simp add: To7BitMulti_def)

lemma unpack_To7BitMulti: "unpack 0 (To7BitMulti B) = B"
  by (simp add: To7BitMulti_pack unpack_pack_from)


lemma From7BitMulti_loop_schedule:
  "From7BitMulti_loop data i shift (apply_sched data sch) =
     map_sum id (apply_sched data) (read_schedule (length data) i shift sch)"
proof (induction "length data" i shift sch rule: read_schedule.induct)
  case (1 i shift sch)
  show ?case
  proof (cases "int i < int (length data) - 3")
    case False
    then show ?thesis
      by (simp add: From7BitMulti_loop.simps [of data i] read_schedule.simps [of _ i])
  next
    case True
    define i1 where "i1 = (if i > 0 \<and> i mod 7 = 0 then i + 1 else i)"
    show ?thesis
    proof (cases "length data \<le> i1 + 2 + 1")
      case True
      with \<open>int i < int (length data) - 3\<close> show ?thesis
        by (simp add: From7BitMulti_loop.simps [of data i] read_schedule.simps [of _ i] i1_def)
    next
      case False
      have ih: "From7BitMulti_loop data (i1 + 1) (if shift + 1 > 6 then 0 else shift + 1)
                  (apply_sched data (sch @ [(shift, i1 + 2)])) =
                map_sum id (apply_sched data)
                  (read_schedule (length data) (i1 + 1) (if shift + 1 > 6 then 0 else shift + 1)
                     (sch @ [(shift, i1 + 2)]))"
        using "1" [OF True i1_def refl False] .
      have ap: "apply_sched data (sch @ [(shift, i1 + 2)]) =
                apply_sched data sch @
                  [drop_bit shift (data ! (i1 + 2)) OR push_bit (7 - shift) (data ! (i1 + 2 + 1))]"
        by (simp add: apply_sched_def dec_def)
      show ?thesis
        using True False ih unfolding ap
        by (simp add: From7BitMulti_loop.simps [of data i] read_schedule.simps [of _ i] i1_def Let_def)
    qed
  qed
qed

lemma unpack_schedule_drop:
  "k \<le> length P \<Longrightarrow> unpack s (drop k P) = apply_sched P (unpack_schedule s k (length P))"
proof (induction s k "length P" rule: unpack_schedule.induct)
  case (1 s k)
  show ?case
  proof (cases "k + 1 < length P")
    case False
    then have "length (drop k P) \<le> 1"
      by simp
    then have "unpack s (drop k P) = []"
      by (cases "drop k P") auto
    with False show ?thesis
      by (simp add: unpack_schedule.simps [of s k] apply_sched_def)
  next
    case True
    then have d: "drop k P = P ! k # P ! (k + 1) # drop (k + 2) P"
      by (simp add: Cons_nth_drop_Suc)
    have d1: "drop (k + 1) P = P ! (k + 1) # drop (k + 2) P"
      using True by (simp add: Cons_nth_drop_Suc)
    show ?thesis
    proof (cases "s = 6")
      case s6: True
      have "unpack 0 (drop (k + 2) P) = apply_sched P (unpack_schedule 0 (k + 2) (length P))"
        using "1.hyps"(1) [OF True s6] True by simp
      then show ?thesis
        using True s6 unfolding d
        by (simp add: unpack_schedule.simps [of 6 k] apply_sched_def)
    next
      case ns6: False
      have ih: "unpack (s + 1) (drop (k + 1) P) =
                apply_sched P (unpack_schedule (s + 1) (k + 1) (length P))"
        using "1.hyps"(2) [OF True ns6] True by simp
      have "unpack s (drop k P) = dec s (P ! k) (P ! (k + 1)) # unpack (s + 1) (drop (k + 1) P)"
        unfolding d d1 using ns6 by simp
      also have "\<dots> = apply_sched P ((s, k) # unpack_schedule (s + 1) (k + 1) (length P))"
        unfolding ih by (simp add: apply_sched_def)
      also have "\<dots> = apply_sched P (unpack_schedule s k (length P))"
        using True ns6 by (simp add: unpack_schedule.simps [of s k])
      finally show ?thesis .
    qed
  qed
qed

lemma apply_sched_header:
  "apply_sched (h0 # h1 # P) (map (\<lambda>(s, k). (s, k + 2)) sch) = apply_sched P sch"
  by (simp add: apply_sched_def case_prod_unfold)

lemma schedules_agree:
  "list_all (\<lambda>n. read_schedule (n + 2) 0 0 [] = Inr (map (\<lambda>(s, k). (s, k + 2)) (unpack_schedule 0 0 n)))
     ([0..<9] @ [10..<16])"
  by code_simp


lemma From7BitMulti_unpack:
  assumes "length P \<le> 15" "length P \<noteq> 9"
  shows "From7BitMulti (p # q # P) = Inr (unpack 0 P)"
proof -
  have "length P \<in> set ([0..<9] @ [10..<16])"
    using assms by auto
  then have sch: "read_schedule (length P + 2) 0 0 [] =
      Inr (map (\<lambda>(s, k). (s, k + 2)) (unpack_schedule 0 0 (length P)))"
    using schedules_agree unfolding list_all_iff by blast
  have "From7BitMulti (p # q # P) =
        From7BitMulti_loop (p # q # P) 0 0 (apply_sched (p # q # P) [])"
    by (simp add: From7BitMulti_def apply_sched_def)
  also have "\<dots> = map_sum id (apply_sched (p # q # P))
                      (read_schedule (length (p # q # P)) 0 0 [])"
    by (rule From7BitMulti_loop_schedule)
  also have "\<dots> = map_sum id (apply_sched (p # q # P)) (read_schedule (length P + 2) 0 0 [])"
    by simp
  also have "\<dots> = Inr (apply_sched P (unpack_schedule 0 0 (length P)))"
    by (simp only: sch map_sum.simps apply_sched_header)
  also have "\<dots> = Inr (unpack 0 P)"
    using unpack_schedule_drop [of 0 P 0] by simp
  finally show ?thesis .
qed

lemma length_pack_from:
  "s \<le> 6 \<Longrightarrow>
   length (pack_from xs s p) =
     length xs + (length xs + s) div 7 + (if (length xs + s) mod 7 = 0 then 0 else 1)"
proof (induction xs arbitrary: s p)
  case Nil
  then show ?case by simp
next
  case (Cons x xs)
  show ?case
  proof (cases "s = 0")
    case True
    then show ?thesis
      using Cons.IH [of 1 "drop_bit 7 x"] by simp
  next
    case nz: False
    show ?thesis
    proof (cases "s = 6")
      case True
      then show ?thesis
        using Cons.IH [of 0 p] by simp
    next
      case False
      with nz Cons.prems have "s + 1 \<le> 6" by simp
      then show ?thesis
        using Cons.IH [of "s + 1" "drop_bit (8 - (s + 1)) x"] nz False by simp
    qed
  qed
qed

lemma packed_length_table:
  "list_all (\<lambda>n. n + n div 7 + (if n mod 7 = 0 then 0 else 1) \<le> 15 \<and>
                  n + n div 7 + (if n mod 7 = 0 then 0 else 1) \<noteq> (9::nat)) [0..<14]"
  by code_simp

lemma packed_length_bound:
  assumes "n \<le> 13"
  shows "n + n div 7 + (if n mod 7 = 0 then 0 else 1) \<le> 15 \<and>
         n + n div 7 + (if n mod 7 = 0 then 0 else 1) \<noteq> (9::nat)"
proof -
  have "n \<in> set [0..<14]"
    using assms by simp
  then show ?thesis
    using packed_length_table unfolding list_all_iff by blast
qed

text \<open>
  Claim C1, as the code has it. \<open>From7BitMulti\<close> starts reading at index 2 (\<open>j := i + 2\<close>):
  it skips two leading bytes, as \<open>parseOWResponse\<close> hands it a whole reply and not
  the packed data alone. Behind any two leading bytes \<open>p\<close> and \<open>q\<close> it recovers every
  buffer of at most 13 bytes from its packed form. On the packed form alone the round
  trip of the claim fails, see the counterexample below.
\<close>

theorem From7BitMulti_To7BitMulti_framed:
  "length B \<le> 13 \<Longrightarrow> From7BitMulti (p # q # To7BitMulti B) = Inr B"
proof -
  assume len: "length B \<le> 13"
  have "length (To7BitMulti B) =
        length B + length B div 7 + (if length B mod 7 = 0 then 0 else 1)"
    using length_pack_from [of 0 B 0] by (simp add: To7BitMulti_pack)
  with packed_length_bound [OF len]
  have "length (To7BitMulti B) \<le> 15" "length (To7BitMulti B) \<noteq> 9"
    by simp_all
  then have "From7BitMulti (p # q # To7BitMulti B) = Inr (unpack 0 (To7BitMulti B))"
    by (rule From7BitMulti_unpack)
  then show ?thesis
    by (simp add: unpack_To7BitMulti)
qed

theorem From7BitMulti_To7BitMulti_framed_witness:
  "length [0x28, 0xFF, 0x80 :: byte] \<le> 13 \<and>
   To7BitMulti [0x28, 0xFF, 0x80] = [0x28, 0x7E, 0x03, 0x04] \<and>
   From7BitMulti (0x43 # 0x02 # To7BitMulti [0x28, 0xFF, 0x80]) = Inr [0x28, 0xFF, 0x80]"
  using From7BitMulti_To7BitMulti_framed [where B = "[0x28, 0xFF, 0x80]" and p = "0x43" and q = "0x02"]
  by (simp add: To7BitMulti_def)

text \<open>
  The bound is sharp: for a buffer of 14 bytes the loop bumps its index a second time,
  at \<open>i = 14\<close>, and reads one byte past the end of the framed packed form.
\<close>

lemma read_schedule_eighteen: "read_schedule 18 0 0 [] = Inl IndexOutOfRange"
  by code_simp

lemma From7BitMulti_fourteen_panics:
  assumes "length B = 14"
  shows "From7BitMulti (p # q # To7BitMulti B) = Inl IndexOutOfRange"
proof -
  have len: "length (p # q # To7BitMulti B) = 18"
    using length_pack_from [of 0 B 0] assms by (simp add: To7BitMulti_pack)
  have "From7BitMulti (p # q # To7BitMulti B) =
        From7BitMulti_loop (p # q # To7BitMulti B) 0 0 (apply_sched (p # q # To7BitMulti B) [])"
    by (simp add: From7BitMulti_def apply_sched_def)
  also have "\<dots> = map_sum id (apply_sched (p # q # To7BitMulti B))
                      (read_schedule (length (p # q # To7BitMulti B)) 0 0 [])"
    by (rule From7BitMulti_loop_schedule)
  also have "\<dots> = Inl IndexOutOfRange"
    by (simp only: len read_schedule_eighteen map_sum.simps id_apply)
  finally show ?thesis .
qed

text \<open>
  The round trip as the claim states it, \<open>From7BitMulti (To7BitMulti B) = B\<close>, is false
  for the one-byte buffer \<open>[0x01]\<close>: its packed form has two bytes, which the
  unpacker takes for the frame and returns nothing.
\<close>

theorem round_trip_counterexample:
  "From7BitMulti (To7BitMulti [0x01]) \<noteq> Inr [0x01]"
  by (simp add: From7BitMulti_def To7BitMulti_def From7BitMulti_loop.simps)

section \<open>Properties of the request layer\<close>

subsection \<open>Request encoding\<close>

text \<open>
  The byte that \<open>Encode\<close> takes out of an \<open>int32\<close> with an arithmetic shift and a
  mask is a digit of the unsigned reading in base 256.
\<close>

lemma byte_of_shift:
  assumes k: "k \<le> 24"
  shows "(ucast (signed_drop_bit k (v :: 32 word) AND 0xff) :: byte) = of_nat (unat v div 2 ^ k mod 256)"
proof -
  have m: "(0xff :: 32 word) = mask 8" by (simp add: mask_eq_exp_minus_1)
  have "unat (take_bit 8 (drop_bit k v)) = take_bit 8 (drop_bit k (unat v))"
    by (simp only: unsigned_take_bit_eq unat_drop_bit_eq)
  also have "\<dots> = unat v div 2 ^ k mod 256"
    by (simp add: take_bit_eq_mod drop_bit_eq_div)
  finally have "(of_nat (unat v div 2 ^ k mod 256) :: byte) = of_nat (unat (take_bit 8 (drop_bit k v)))"
    by simp
  also have "\<dots> = ucast (take_bit 8 (drop_bit k v))"
    by simp
  also have "\<dots> = ucast (signed_drop_bit k v AND 0xff)"
    unfolding m
    by (rule bit_word_eqI) (use k in \<open>auto simp add: bit_simps\<close>)
  finally show ?thesis by simp
qed

lemma le2: "le_bytes 2 (unat v) = [ucast ((v :: 32 word) AND 0xff), ucast (signed_drop_bit 8 v AND 0xff)]"
proof -
  have "le_bytes 2 (unat v) = le_bytes (Suc (Suc 0)) (unat v)"
    by (simp only: numeral_2_eq_2)
  also have "\<dots> = [of_nat (unat v mod 256), of_nat (unat v div 256 mod 256)]"
    by simp
  finally show ?thesis
    using byte_of_shift [of 0 v] byte_of_shift [of 8 v] by simp
qed

lemma le4: "le_bytes 4 (unat v) = [ucast ((v :: 32 word) AND 0xff), ucast (signed_drop_bit 8 v AND 0xff),
    ucast (signed_drop_bit 16 v AND 0xff), ucast (signed_drop_bit 24 v AND 0xff)]"
proof -
  have "(4::nat) = Suc (Suc (Suc (Suc 0)))"
    by simp
  then have "le_bytes 4 (unat v) = le_bytes (Suc (Suc (Suc (Suc 0)))) (unat v)"
    by (simp only:)
  also have "\<dots> = [of_nat (unat v mod 256), of_nat (unat v div 256 mod 256),
      of_nat (unat v div 65536 mod 256), of_nat (unat v div 16777216 mod 256)]"
    by (simp add: div_mult2_eq [symmetric])
  finally show ?thesis
    using byte_of_shift [of 0 v] byte_of_shift [of 8 v] byte_of_shift [of 16 v]
      byte_of_shift [of 24 v] by simp
qed

lemma Encode_body: "Encode K r = To7BitMulti (request_body K r)"
  unfolding Encode_def request_body_def Let_def le2 le4
  by (simp add: word_greater_zero_iff)

text \<open>
  Claim C7. Request encoding order: \<open>Encode\<close> returns the 7-bit packing of the
  concatenation, in order, of the address (if SELECT is set; the code appends the
  address slice whatever its length), the 2-byte little-endian read count and the
  2-byte little-endian correlation id (if READ), the 4-byte little-endian delay (if
  DELAY) and the write payload (if WRITE). In particular the body of a request with
  only WRITE set is the write payload, and SELECT with WRITE puts the address before it.
\<close>

theorem Encode_order:
  "Encode K r = To7BitMulti (request_body K r) \<and>
   (Command r AND OW_SELECT K = 0 \<and> Command r AND OW_READ K = 0 \<and>
    Command r AND OW_DELAY K = 0 \<and> Command r AND OW_WRITE K \<noteq> 0 \<longrightarrow>
      Encode K r = To7BitMulti (Data r)) \<and>
   (Command r AND OW_SELECT K \<noteq> 0 \<and> Command r AND OW_READ K = 0 \<and>
    Command r AND OW_DELAY K = 0 \<and> Command r AND OW_WRITE K \<noteq> 0 \<longrightarrow>
      Encode K r = To7BitMulti (Address r @ Data r))"
  by (simp add: Encode_body request_body_def)

theorem Encode_order_witness:
  "Encode example_consts
     \<lparr>Command = 0x20, Address = [0x28, 0x01], ReadCount = 9, CorrelationId = 0x1234,
      DelayMs = 0, Data = [0xbe]\<rparr> = To7BitMulti [0xbe] \<and>
   Encode example_consts
     \<lparr>Command = 0x24, Address = [0x28, 0x01], ReadCount = 9, CorrelationId = 0x1234,
      DelayMs = 0, Data = [0xbe]\<rparr> = To7BitMulti [0x28, 0x01, 0xbe]"
  using
    Encode_order [of example_consts "\<lparr>Command = 0x20, Address = [0x28, 0x01], ReadCount = 9,
      CorrelationId = 0x1234, DelayMs = 0, Data = [0xbe]\<rparr>", THEN conjunct2, THEN conjunct1]
    Encode_order [of example_consts "\<lparr>Command = 0x24, Address = [0x28, 0x01], ReadCount = 9,
      CorrelationId = 0x1234, DelayMs = 0, Data = [0xbe]\<rparr>", THEN conjunct2, THEN conjunct2]
  by (simp add: example_consts_def)

subsection \<open>The configuration request\<close>

text \<open>
  Claim C4, as the code has it. \<open>OneWireConfig\<close> splits both arguments with \<open>to7Bit\<close>
  and passes only element 0 of each to \<open>sendSysEx\<close>: after the subcommand byte the
  request has exactly two bytes, the low 7 bits of \<open>csPin\<close> and the low 7 bits of
  \<open>owPowerMode\<close>. The high bits of neither are sent.
\<close>

theorem OneWireConfig_body:
  "OneWireConfig K c csPin owPowerMode =
     (sendErr c,
      c\<lparr>sent := sent c @
         [ [SysExOneWire K, OneWireConfig_const K] @
           [take_bit 7 csPin, take_bit 7 owPowerMode] ]\<rparr>)"
  by (simp add: OneWireConfig_def to7Bit_def sendSysEx_def take_bit_eq_mask mask_eq_exp_minus_1)

text \<open>
  The four-byte body of the claim is not what is sent: for pin 0x82 and power mode 1 the
  bytes after the subcommand are 0x02 and 0x01, not 0x02, 0x01, 0x01, 0x00.
\<close>

theorem OneWireConfig_four_bytes_counterexample:
  "drop 2 (last (sent (snd (OneWireConfig example_consts (example_client []) 0x82 0x01)))) \<noteq>
     to7Bit 0x82 @ to7Bit 0x01"
  by (simp add: OneWireConfig_def to7Bit_def sendSysEx_def example_client_def example_consts_def)

subsection \<open>Search replies\<close>

lemma address_groups_short: "length t < 8 \<Longrightarrow> address_groups t = []"
  by (simp add: address_groups_def)

lemma address_groups_full:
  assumes "length x = 8"
  shows "address_groups (x @ ys) = x # address_groups ys"
proof -
  have n: "length (x @ ys) div 8 = Suc (length ys div 8)"
    using assms by simp
  have "address_groups (x @ ys) =
        take 8 (x @ ys) # map (\<lambda>k. take 8 (drop (8 * Suc k) (x @ ys))) [0..<length ys div 8]"
    unfolding address_groups_def n
    by (simp add: upt_conv_Cons map_Suc_upt [symmetric] del: upt_Suc)
  then show ?thesis
    using assms by (simp add: address_groups_def)
qed

lemma OneWireSearch_loop_groups:
  "length t < 8 \<Longrightarrow> i mod 8 = length t \<Longrightarrow>
   OneWireSearch_loop i ds t acc = acc @ address_groups (t @ ds)"
proof (induction ds arbitrary: i t acc)
  case Nil
  then show ?case by (simp add: address_groups_short)
next
  case (Cons d ds)
  show ?case
  proof (cases "i mod 8 = 7")
    case True
    then have pos: "i > 0" by (cases i) auto
    have len: "length (t @ [d]) = 8"
      using True Cons.prems by simp
    have "OneWireSearch_loop i (d # ds) t acc = OneWireSearch_loop (i + 1) ds [] (acc @ [t @ [d]])"
      using True pos by simp
    also have "\<dots> = (acc @ [t @ [d]]) @ address_groups ([] @ ds)"
      by (rule Cons.IH) (use True in \<open>simp_all add: mod_Suc\<close>)
    also have "\<dots> = acc @ address_groups ((t @ [d]) @ ds)"
      unfolding address_groups_full [OF len] by simp
    finally show ?thesis by simp
  next
    case False
    have "OneWireSearch_loop i (d # ds) t acc = OneWireSearch_loop (i + 1) ds (t @ [d]) acc"
      using False by simp
    also have "\<dots> = acc @ address_groups ((t @ [d]) @ ds)"
      by (rule Cons.IH) (use False Cons.prems in \<open>simp_all add: mod_Suc\<close>)
    finally show ?thesis by simp
  qed
qed

text \<open>
  Claim C8. Search partitioning: when the buffer \<open>buf\<close> is delivered to
  \<open>OneWireSearch\<close>, the result is the list of its consecutive 8-byte groups in arrival
  order, a trailing group of fewer than 8 bytes dropped; the error of the send is
  returned with it. In particular a reply of 17 bytes yields exactly two addresses,
  bytes 0 to 7 and bytes 8 to 15, and byte 16 is in neither.
\<close>

theorem OneWireSearch_partition:
  "owChan c = buf # rest \<Longrightarrow>
   OneWireSearch K c csPin mode =
     (Inr (address_groups buf, sendErr c),
      c\<lparr>sent := sent c @ [ [SysExOneWire K, mode, csPin] ], owChan := rest\<rparr>) \<and>
   (length buf = 17 \<longrightarrow> address_groups buf = [take 8 buf, take 8 (drop 8 buf)])"
proof -
  have two: "[0..<2] = [0, Suc 0]"
    by (simp add: upt_rec)
  assume "owChan c = buf # rest"
  then show ?thesis
    by (simp add: OneWireSearch_def sendSysEx_def recv_owChan_def
        OneWireSearch_loop_groups [of "[]" 0, simplified])
      (simp add: address_groups_def two)
qed

theorem OneWireSearch_partition_witness:
  "OneWireSearch example_consts
     (example_client [ [1, 2, 3, 4, 5, 6, 7, 8, 9, 10, 11, 12, 13, 14, 15, 16, 17] ]) 2 0x40 =
     (Inr ([ [1, 2, 3, 4, 5, 6, 7, 8], [9, 10, 11, 12, 13, 14, 15, 16] ], None),
      \<lparr>sent = [ [0x73, 0x40, 2] ], sendErr = None, owChan = []\<rparr>)"
  using OneWireSearch_partition [where c = "example_client [ [1, 2, 3, 4, 5, 6, 7, 8, 9, 10, 11, 12, 13, 14, 15, 16, 17] ]"
      and buf = "[1, 2, 3, 4, 5, 6, 7, 8, 9, 10, 11, 12, 13, 14, 15, 16, 17]" and rest = "[]"
      and K = example_consts and csPin = 2 and mode = "0x40"]
  by (simp add: example_client_def example_consts_def)

section \<open>Properties of the DS18x20 driver\<close>

subsection \<open>Setting the resolution\<close>

lemma byte_range_cases:
  assumes "9 \<le> (r::byte)" "r \<le> 12"
  shows "r = 9 \<or> r = 10 \<or> r = 11 \<or> r = 12"
proof -
  have "9 \<le> unat r" "unat r \<le> 12"
    using assms by (simp_all add: word_le_nat_alt)
  then have "unat r = 9 \<or> unat r = 10 \<or> unat r = 11 \<or> unat r = 12"
    by arith
  then have "unat r = unat (9::byte) \<or> unat r = unat (10::byte) \<or>
             unat r = unat (11::byte) \<or> unat r = unat (12::byte)"
    by simp
  then show ?thesis
    by (simp only: word_unat_eq_iff [symmetric])
qed

lemma OneWireCommand_sent:
  "sent (snd (OneWireCommand K c csPin request)) =
     sent c @ [ [SysExOneWire K, Command request, csPin] @ Encode K request ]"
  by (simp add: OneWireCommand_def sendSysEx_def recv_owChan_def Let_def split: list.splits)

text \<open>
  Claim C9. For every resolution argument \<open>r\<close> below 9 or above 12, \<open>Resolution\<close>
  returns the out-of-range error and leaves the device and its client as they were:
  nothing is sent and nothing is received. For every \<open>r\<close> from 9 to 12 it sends one
  request with the flags RESET, SELECT and WRITE for the device's address, whose
  payload is 0x4e, 0, 0 and \<open>(r - 9) << 6\<close>, that is \<open>(r - 9) * 64\<close>.
\<close>

theorem Resolution_range:
  "(r < 9 \<or> r > 12 \<longrightarrow> Resolution K d r = (Inr (Some ResolutionRange), d)) \<and>
   (9 \<le> r \<and> r \<le> 12 \<longrightarrow>
      sent (Client (snd (Resolution K d r))) =
        sent (Client d) @
          [ [SysExOneWire K, OW_RESET K OR OW_SELECT K OR OW_WRITE K, Pin d] @
            Encode K \<lparr>Command = OW_RESET K OR OW_SELECT K OR OW_WRITE K,
                      Address = DevAddress d, ReadCount = 0, CorrelationId = 0x1234, DelayMs = 0,
                      Data = [0x4e, 0, 0, of_nat ((unat r - 9) * 64)]\<rparr> ])"
proof (intro conjI impI)
  assume "r < 9 \<or> r > 12"
  then show "Resolution K d r = (Inr (Some ResolutionRange), d)"
    by (simp add: Resolution_def)
next
  assume a: "9 \<le> r \<and> r \<le> 12"
  then have ok: "\<not> (r < 9 \<or> r > 12)"
    by auto
  have p: "push_bit 6 (r - 9) = (of_nat ((unat r - 9) * 64) :: byte)"
    using byte_range_cases [of r] a by auto
  let ?req = "\<lparr>Command = OW_RESET K OR OW_SELECT K OR OW_WRITE K,
                     Address = DevAddress d, ReadCount = 0, CorrelationId = 0x1234, DelayMs = 0,
                     Data = [0x4e, 0, 0, of_nat ((unat r - 9) * 64)]\<rparr>"
  have "snd (Resolution K d r) = d\<lparr>Client := snd (OneWireCommand K (Client d) (Pin d) ?req)\<rparr>"
    using ok by (simp add: Resolution_def p Let_def split: prod.splits sum.splits)
  then show "sent (Client (snd (Resolution K d r))) =
        sent (Client d) @
          [ [SysExOneWire K, OW_RESET K OR OW_SELECT K OR OW_WRITE K, Pin d] @ Encode K ?req ]"
    by (simp add: OneWireCommand_sent)
qed

theorem Resolution_range_witness:
  "Resolution example_consts (example_device []) 13 =
     (Inr (Some ResolutionRange), example_device []) \<and>
   sent (Client (snd (Resolution example_consts (example_device []) 10))) =
     [ [0x73, 0x25, 0x02] @
       To7BitMulti [0x28, 0x01, 0x02, 0x03, 0x04, 0x05, 0x06, 0x07, 0x4e, 0x00, 0x00, 0x40] ]"
  using Resolution_range [of 13 example_consts "example_device []"]
    Resolution_range [of 10 example_consts "example_device []"]
  by (simp add: example_device_def example_client_def example_consts_def Encode_body
      request_body_def)

subsection \<open>Reading the scratchpad\<close>

text \<open>
  One byte of the CRC, unrolled on a numeral count, and the CRC of two scratchpads: the
  power-on scratchpad of a DS18B20 (85 degrees, 12 bits) and the same with the raw
  temperature 0x0551.
\<close>

lemma crc8_bits_numeral:
  "crc8_bits (numeral n) crc b =
     crc8_bits (pred_numeral n)
       (if (crc XOR b) AND 0x1 > 0 then drop_bit 1 crc XOR 0x8C else drop_bit 1 crc)
       (drop_bit 1 b)"
  by (simp add: numeral_eq_Suc Let_def)

lemma crc_power_on: "OneWireCrc8 [0x50, 0x05, 0x4b, 0x46, 0x7f, 0xff, 0x0c, 0x10] = 0x1c"
  unfolding OneWireCrc8_def fold_simps o_apply
  by (simp add: crc8_bits_numeral)

lemma crc_raw_0551: "OneWireCrc8 [0x51, 0x05, 0x4b, 0x46, 0x7f, 0xff, 0x0c, 0x10] = 0x5f"
  unfolding OneWireCrc8_def fold_simps o_apply
  by (simp add: crc8_bits_numeral)

text \<open>
  The request of \<open>ReadScratchPad\<close> carries \<open>OW_READ\<close>. \<open>OneWireCommand\<close> waits for a
  reply when bit 3 of the command is set (the literal \<open>0x8\<close> in its test), so a reply is
  delivered to \<open>ReadScratchPad\<close> when \<open>OW_READ\<close> has that bit.
\<close>

lemma read_bit_kept:
  assumes "(r::byte) AND 0x8 \<noteq> 0"
  shows "0 < (a OR b OR c OR r) AND 0x8"
proof -
  have "(a OR b OR c OR r) AND 0x8 = (a AND 0x8) OR (b AND 0x8) OR (c AND 0x8) OR (r AND 0x8)"
    by (simp add: bit.conj_disj_distrib2)
  with assms have "(a OR b OR c OR r) AND 0x8 \<noteq> 0"
    by (simp add: or_eq_0_iff)
  then show ?thesis
    by (simp add: word_greater_zero_iff)
qed

lemma OneWireCommand_reply:
  assumes "sendErr c = None" and "0 < Command request AND 0x8" and "owChan c = reply # rest"
  shows "OneWireCommand K c csPin request =
           (Inr (reply, None),
            c\<lparr>sent := sent c @ [ [SysExOneWire K, Command request, csPin] @ Encode K request ],
              owChan := rest\<rparr>)"
  using assms by (simp add: OneWireCommand_def sendSysEx_def recv_owChan_def)

text \<open>
  Claim C2, as the code has it. When the send succeeds and a reply of at least 3 bytes
  is delivered whose last byte differs from \<open>OneWireCrc8\<close> of the bytes between the
  two-byte prefix and that last byte, \<open>ReadScratchPad\<close> returns the CRC-mismatch error
  (received CRC, calculated CRC, scratch bytes) and leaves \<open>Temperature\<close>,
  \<open>RegisterTh\<close>, \<open>RegisterTl\<close> and \<open>ConfigRegister\<close> as they were. The field \<open>scratch\<close>
  is not kept: it is assigned the reply without its prefix before the CRC is checked.
\<close>

theorem ReadScratchPad_crc_mismatch:
  assumes "sendErr (Client d) = None" and "OW_READ K AND 0x8 \<noteq> 0"
    and "owChan (Client d) = reply # rest" and "3 \<le> length reply"
    and "last reply \<noteq> OneWireCrc8 (butlast (drop 2 reply))"
  shows "fst (ReadScratchPad K d) =
           Inr (Some (CrcMismatch (last reply) (OneWireCrc8 (butlast (drop 2 reply)))
                  (drop 2 reply))) \<and>
         Temperature (snd (ReadScratchPad K d)) = Temperature d \<and>
         RegisterTh (snd (ReadScratchPad K d)) = RegisterTh d \<and>
         RegisterTl (snd (ReadScratchPad K d)) = RegisterTl d \<and>
         ConfigRegister (snd (ReadScratchPad K d)) = ConfigRegister d \<and>
         scratch (snd (ReadScratchPad K d)) = drop 2 reply"
proof -
  let ?req = "\<lparr>Command = OW_RESET K OR OW_SELECT K OR OW_WRITE K OR OW_READ K,
      Address = DevAddress d, ReadCount = 9, CorrelationId = 0x1234, DelayMs = 0,
      Data = [0xbe]\<rparr>"
  have bit: "0 < Command ?req AND 0x8"
    using read_bit_kept [OF assms(2)] by simp
  have cmd: "OneWireCommand K (Client d) (Pin d) ?req =
      (Inr (reply, None),
       (Client d)\<lparr>sent := sent (Client d) @
           [ [SysExOneWire K, Command ?req, Pin d] @ Encode K ?req ],
         owChan := rest\<rparr>)"
    by (rule OneWireCommand_reply [OF assms(1) bit assms(3)])
  have "Suc (Suc (length reply - 3)) = length reply - 1" and "reply \<noteq> []"
    using assms(4) by auto
  then have l: "reply ! Suc (Suc (length reply - 3)) = last reply"
    by (simp add: last_conv_nth)
  have b: "take (length reply - 3) (drop 2 reply) = butlast (drop 2 reply)"
    by (simp add: butlast_conv_take)
  have "ReadScratchPad K d =
      (Inr (Some (CrcMismatch (last reply) (OneWireCrc8 (butlast (drop 2 reply))) (drop 2 reply))),
       d\<lparr>Client := (Client d)\<lparr>sent := sent (Client d) @
                [ [SysExOneWire K, Command ?req, Pin d] @ Encode K ?req ],
              owChan := rest\<rparr>,
          scratch := drop 2 reply\<rparr>)"
    using assms(4,5) cmd by (simp add: ReadScratchPad_def Let_def l b)
  then show ?thesis
    by simp
qed

theorem ReadScratchPad_crc_mismatch_witness:
  "fst (ReadScratchPad example_consts
          (example_device [ [0x34, 0x12, 0x50, 0x05, 0x4b, 0x46, 0x7f, 0xff, 0x0c, 0x10, 0x00] ])) =
     Inr (Some (CrcMismatch 0x00 0x1c [0x50, 0x05, 0x4b, 0x46, 0x7f, 0xff, 0x0c, 0x10, 0x00])) \<and>
   Temperature (snd (ReadScratchPad example_consts
          (example_device [ [0x34, 0x12, 0x50, 0x05, 0x4b, 0x46, 0x7f, 0xff, 0x0c, 0x10, 0x00] ]))) = 0"
  using ReadScratchPad_crc_mismatch [where K = example_consts
      and d = "example_device [ [0x34, 0x12, 0x50, 0x05, 0x4b, 0x46, 0x7f, 0xff, 0x0c, 0x10, 0x00] ]"
      and reply = "[0x34, 0x12, 0x50, 0x05, 0x4b, 0x46, 0x7f, 0xff, 0x0c, 0x10, 0x00]"
      and rest = "[]"]
  by (simp add: example_device_def example_client_def example_consts_def crc_power_on)

text \<open>
  The claim's "every field unchanged" fails for \<open>scratch\<close>: a device whose scratch is
  empty holds the rejected bytes after the failed read.
\<close>

theorem ReadScratchPad_scratch_counterexample:
  "fst (ReadScratchPad example_consts
          (example_device [ [0x34, 0x12, 0x50, 0x05, 0x4b, 0x46, 0x7f, 0xff, 0x0c, 0x10, 0x00] ])) =
     Inr (Some (CrcMismatch 0x00 0x1c [0x50, 0x05, 0x4b, 0x46, 0x7f, 0xff, 0x0c, 0x10, 0x00])) \<and>
   scratch (snd (ReadScratchPad example_consts
          (example_device [ [0x34, 0x12, 0x50, 0x05, 0x4b, 0x46, 0x7f, 0xff, 0x0c, 0x10, 0x00] ]))) \<noteq>
   scratch (example_device [ [0x34, 0x12, 0x50, 0x05, 0x4b, 0x46, 0x7f, 0xff, 0x0c, 0x10, 0x00] ])"
  by (simp add: ReadScratchPad_def OneWireCommand_def sendSysEx_def recv_owChan_def
      example_device_def example_client_def example_consts_def crc_power_on)

text \<open>
  Claim C3, evaluated on the code. A device that has not been read yet caches
  \<open>ConfigRegister = 0\<close>, which \<open>GetResolution\<close> reads as 9 bits. Its first reply
  carries the configuration byte 0x7f (12 bits) and the raw temperature 0x0551. The
  read succeeds and stores 0x7f, but \<open>parseTemperature\<close> runs before that assignment:
  the raw value is masked with 0xfff8 to 0x0550 and the temperature is 85, not
  1361/16 = 85.0625 as the resolution read in this call gives.
\<close>

theorem ReadScratchPad_cached_resolution:
  "fst (ReadScratchPad example_consts
          (example_device [ [0x34, 0x12, 0x51, 0x05, 0x4b, 0x46, 0x7f, 0xff, 0x0c, 0x10, 0x5f] ])) =
     Inr None \<and>
   ConfigRegister (snd (ReadScratchPad example_consts
          (example_device [ [0x34, 0x12, 0x51, 0x05, 0x4b, 0x46, 0x7f, 0xff, 0x0c, 0x10, 0x5f] ]))) =
     0x7f \<and>
   GetResolution (snd (ReadScratchPad example_consts
          (example_device [ [0x34, 0x12, 0x51, 0x05, 0x4b, 0x46, 0x7f, 0xff, 0x0c, 0x10, 0x5f] ]))) =
     12 \<and>
   Temperature (snd (ReadScratchPad example_consts
          (example_device [ [0x34, 0x12, 0x51, 0x05, 0x4b, 0x46, 0x7f, 0xff, 0x0c, 0x10, 0x5f] ]))) =
     85 \<and>
   (1361 :: rat) / 16 \<noteq> 85"
  by (simp add: ReadScratchPad_def OneWireCommand_def sendSysEx_def recv_owChan_def
      parseTemperature_def GetResolution_def
      example_device_def example_client_def example_consts_def crc_raw_0551)

subsection \<open>Decoding the temperature\<close>









end
